theory Spec2Isabelle
  imports Complex_Main
begin

section \<open>ModalView (kivy/uix/modalview.py)\<close>

text \<open>
  A shallow embedding of the class \<open>ModalView\<close>. The methods of the class become
  functions on a record that holds the fields of one view together with the state of
  the collaborators the methods talk to: the \<open>Window\<close> singleton, the animations
  that are running on the view, the callbacks bound to the view's events, and the
  sequence of calls the view has made to its collaborators so far.

  Python floats (\<open>_anim_alpha\<close>, \<open>_anim_duration\<close>, coordinates) are reals: the
  methods only store the constants \<open>0.\<close> and \<open>1.\<close> and copy points, they do no
  arithmetic on them.
\<close>

subsection \<open>Data\<close>

type_synonym point = "real \<times> real"

text \<open>The four events of \<open>__events__\<close>.\<close>

datatype event = On_pre_open | On_open | On_pre_dismiss | On_dismiss

text \<open>A touch, as far as the handlers read it: \<open>touch.pos\<close>.\<close>

record touch =
  pos :: point

text \<open>The widgets in \<open>Window.children\<close>: this view, or some other widget.\<close>

datatype widget = ModalView | Other_widget nat

text \<open>
  The callbacks bound to the window's \<open>on_resize\<close> and \<open>on_keyboard\<close>: the view's
  bound methods \<open>_align_center\<close> and \<open>_handle_keyboard\<close>, or some other callback.
\<close>

datatype callback = Align_center | Handle_keyboard | Other_callback nat

record window =
  children :: "widget list"
  on_resize :: "callback list"
  on_keyboard :: "callback list"
  window_center :: point

text \<open>
  The two \<open>on_complete\<close> callbacks the class binds to an animation:
  \<open>lambda *_args: self.dispatch('on_open')\<close> in \<open>open\<close> and
  \<open>lambda *args: self._real_remove_widget()\<close> in \<open>dismiss\<close>.
\<close>

datatype completion = Dispatch_on_open | Call_real_remove_widget

text \<open>An \<open>Animation(_anim_alpha=v, d=t)\<close> with its \<open>on_complete\<close> callback.\<close>

record animation =
  to_anim_alpha :: real
  duration :: real
  on_complete :: completion

text \<open>
  The calls a method makes to its collaborators, in program order. An animation is
  named by its handle, the identity of the \<open>Animation\<close> object.
\<close>

datatype call =
    Dispatch event
  | Window_add_widget
  | Window_remove_widget
  | Window_bind
  | Window_unbind
  | Fbind string
  | Anim_start nat
  | Anim_stop nat
  | Anim_complete nat
  | Super_on_touch_down touch
  | Super_on_touch_move touch
  | Super_on_touch_up touch

text \<open>
  The fields of the view (\<open>auto_dismiss\<close> to \<open>center\<close>, the leading underscore of
  the private ones dropped), then the collaborators. \<open>window\<close> is the field
  \<open>_window\<close>: \<open>None\<close> or a reference to the \<open>Window\<close> singleton, whose state is
  \<open>the_window\<close>. \<open>anim\<close> is the field \<open>_anim\<close>: \<open>None\<close> or the handle of an
  animation, running or not. \<open>running\<close> holds the animations that have been started on
  the view and have neither completed nor been stopped. \<open>listeners\<close> holds the
  callbacks bound to the view's events, each with the value it returns.
\<close>

datatype window_ref = Window

record modal_view =
  auto_dismiss :: bool
  anim :: "nat option"
  anim_alpha :: real
  anim_duration :: real
  window :: "window_ref option"
  is_open :: bool
  touch_started_inside :: "bool option"
  center :: point
  the_window :: window
  running :: "(nat \<times> animation) list"
  next_handle :: nat
  listeners :: "(event \<times> bool) list"
  trace :: "call list"

subsection \<open>Collaborators\<close>

text \<open>
  Modelled from the spec: \<open>EventDispatcher.dispatch\<close> (kivy/_event.pyx) is not under
  src/. The spec's EventDispatcher is a ``generic publish mechanism for named events
  with optional cancellation via a callback return value'', the results of the
  registered handlers aggregated ``with logical-OR''. The default handlers
  \<open>on_pre_open\<close>, \<open>on_open\<close>, \<open>on_pre_dismiss\<close> and \<open>on_dismiss\<close> of the class return
  \<open>None\<close>, so they add nothing to the result. Listeners are observers: they do not
  call back into the view.
\<close>

definition dispatch :: "event \<Rightarrow> modal_view \<Rightarrow> bool \<times> modal_view" where
  "dispatch ev s = ((ev, True) \<in> set (listeners s), s\<lparr>trace := trace s @ [Dispatch ev]\<rparr>)"

text \<open>
  Modelled from the spec: the \<open>Window\<close> (kivy/core/window) is not under src/. The
  spec's DisplayRoot ``supports adding/removing a widget, binding/unbinding to resize
  and keyboard notifications, and exposes a current center point''. The front of
  \<open>children\<close> is the topmost widget; removing and unbinding take out the first
  occurrence and do nothing when there is none.
\<close>

definition window_add_widget :: "modal_view \<Rightarrow> modal_view" where
  "window_add_widget s =
     s\<lparr>the_window := (the_window s)\<lparr>children := ModalView # children (the_window s)\<rparr>,
       trace := trace s @ [Window_add_widget]\<rparr>"

definition window_remove_widget :: "modal_view \<Rightarrow> modal_view" where
  "window_remove_widget s =
     s\<lparr>the_window := (the_window s)\<lparr>children := remove1 ModalView (children (the_window s))\<rparr>,
       trace := trace s @ [Window_remove_widget]\<rparr>"

definition window_bind :: "modal_view \<Rightarrow> modal_view" where
  "window_bind s =
     s\<lparr>the_window := (the_window s)
          \<lparr>on_resize := on_resize (the_window s) @ [Align_center],
           on_keyboard := on_keyboard (the_window s) @ [Handle_keyboard]\<rparr>,
       trace := trace s @ [Window_bind]\<rparr>"

definition window_unbind :: "modal_view \<Rightarrow> modal_view" where
  "window_unbind s =
     s\<lparr>the_window := (the_window s)
          \<lparr>on_resize := remove1 Align_center (on_resize (the_window s)),
           on_keyboard := remove1 Handle_keyboard (on_keyboard (the_window s))\<rparr>,
       trace := trace s @ [Window_unbind]\<rparr>"

text \<open>
  \<open>self.fbind(name, self._align_center)\<close>: the view observes its own \<open>center\<close> and
  \<open>size\<close>. The observer re-runs \<open>_align_center\<close>, which assigns the window's centre
  again; the call is recorded.
\<close>

definition fbind :: "string \<Rightarrow> modal_view \<Rightarrow> modal_view" where
  "fbind name s = s\<lparr>trace := trace s @ [Fbind name]\<rparr>"

text \<open>
  Modelled from the spec: \<open>Animation\<close> (kivy/animation.py) is not under src/. The
  spec's AnimationService ``runs a time-based interpolation and signals completion;
  supports cancellation (stop)'', and ``invokes a completion callback once''.
  \<open>anim_start\<close> creates the animation object (a fresh handle), and starts it;
  \<open>anim_stop\<close> cancels it, without completion.
\<close>

definition anim_start :: "animation \<Rightarrow> modal_view \<Rightarrow> nat \<times> modal_view" where
  "anim_start a s =
     (next_handle s,
      s\<lparr>running := (next_handle s, a) # running s,
        next_handle := Suc (next_handle s),
        trace := trace s @ [Anim_start (next_handle s)]\<rparr>)"

definition anim_stop :: "nat \<Rightarrow> modal_view \<Rightarrow> modal_view" where
  "anim_stop h s =
     s\<lparr>running := filter (\<lambda>p. fst p \<noteq> h) (running s),
       trace := trace s @ [Anim_stop h]\<rparr>"

text \<open>
  \<open>super().on_touch_down(touch)\<close> and its siblings: the default propagation of the
  touch to the children of the view, recorded.
\<close>

definition super_on_touch_down :: "touch \<Rightarrow> modal_view \<Rightarrow> modal_view" where
  "super_on_touch_down t s = s\<lparr>trace := trace s @ [Super_on_touch_down t]\<rparr>"

definition super_on_touch_move :: "touch \<Rightarrow> modal_view \<Rightarrow> modal_view" where
  "super_on_touch_move t s = s\<lparr>trace := trace s @ [Super_on_touch_move t]\<rparr>"

definition super_on_touch_up :: "touch \<Rightarrow> modal_view \<Rightarrow> modal_view" where
  "super_on_touch_up t s = s\<lparr>trace := trace s @ [Super_on_touch_up t]\<rparr>"

subsection \<open>The methods\<close>

text \<open>\<open>_clear_anim\<close>: an \<open>Animation\<close> object is truthy, so the test is on \<open>None\<close>.\<close>

definition clear_anim :: "modal_view \<Rightarrow> modal_view" where
  "clear_anim s =
     (case anim s of
        None \<Rightarrow> s
      | Some h \<Rightarrow> (anim_stop h s)\<lparr>anim := None\<rparr>)"

text \<open>\<open>open\<close>, with \<open>kwargs.get('animation', True)\<close> as the argument \<open>animation\<close>.\<close>

definition open_view :: "bool \<Rightarrow> modal_view \<Rightarrow> modal_view" where
  "open_view animation s0 =
     (if is_open s0 then s0
      else
        let s1 = clear_anim s0;
            s2 = s1\<lparr>window := Some Window, is_open := True\<rparr>;
            s3 = snd (dispatch On_pre_open s2);
            s4 = window_add_widget s3;
            s5 = window_bind s4;
            s6 = s5\<lparr>center := window_center (the_window s5)\<rparr>;
            s7 = fbind ''center'' s6;
            s8 = fbind ''size'' s7
        in if animation then
             let (ani, s9) = anim_start
                   \<lparr>to_anim_alpha = 1, duration = anim_duration s8,
                    on_complete = Dispatch_on_open\<rparr> s8
             in s9\<lparr>anim := Some ani\<rparr>
           else snd (dispatch On_open (s8\<lparr>anim_alpha := 1\<rparr>)))"

text \<open>
  \<open>_real_remove_widget\<close>. \<open>self._window.remove_widget\<close> on a \<open>_window\<close> that is
  \<open>None\<close> raises AttributeError: the result \<open>None\<close>.
\<close>

definition real_remove_widget :: "modal_view \<Rightarrow> modal_view option" where
  "real_remove_widget s =
     (if \<not> is_open s then Some s
      else
        (case window s of
           None \<Rightarrow> None
         | Some Window \<Rightarrow>
             Some ((window_unbind (window_remove_widget s))
                     \<lparr>is_open := False, window := None\<rparr>)))"

text \<open>
  \<open>dismiss\<close>, with \<open>kwargs.get('force', False)\<close> and
  \<open>kwargs.get('animation', True)\<close> as the arguments \<open>force\<close> and \<open>animation\<close>.
\<close>

definition dismiss :: "bool \<Rightarrow> bool \<Rightarrow> modal_view \<Rightarrow> modal_view option" where
  "dismiss force animation s0 =
     (let s1 = clear_anim s0
      in if \<not> is_open s1 then Some s1
         else
           let s2 = snd (dispatch On_pre_dismiss s1);
               (r, s3) = dispatch On_dismiss s2
           in if r \<and> \<not> force then Some s3
              else if animation then
                let (ani, s4) = anim_start
                      \<lparr>to_anim_alpha = 0, duration = anim_duration s3,
                       on_complete = Call_real_remove_widget\<rparr> s3
                in Some (s4\<lparr>anim := Some ani\<rparr>)
              else real_remove_widget s3)"

text \<open>\<open>_align_center\<close>; \<open>self._window.center\<close> raises when \<open>_window\<close> is \<open>None\<close>.\<close>

definition align_center :: "modal_view \<Rightarrow> modal_view option" where
  "align_center s =
     (if is_open s then
        (case window s of
           None \<Rightarrow> None
         | Some Window \<Rightarrow> Some (s\<lparr>center := window_center (the_window s)\<rparr>))
      else Some s)"

text \<open>
  The touch handlers. \<open>collide_point\<close> is inherited from \<open>Widget\<close>, which is not
  under src/: the handler takes it as the argument \<open>collide_point\<close>, the containment
  test of the view at the time of the call. The first component of the result is the
  value the handler returns.
\<close>

definition on_touch_down ::
  "(point \<Rightarrow> bool) \<Rightarrow> touch \<Rightarrow> modal_view \<Rightarrow> bool \<times> modal_view" where
  "on_touch_down collide_point t s0 =
     (let s1 = s0\<lparr>touch_started_inside := Some (collide_point (pos t))\<rparr>;
          s2 = (if \<not> auto_dismiss s1 \<or> touch_started_inside s1 = Some True
                then super_on_touch_down t s1 else s1)
      in (True, s2))"

definition on_touch_move :: "touch \<Rightarrow> modal_view \<Rightarrow> bool \<times> modal_view" where
  "on_touch_move t s0 =
     (let s1 = (if \<not> auto_dismiss s0 \<or> touch_started_inside s0 = Some True
                then super_on_touch_move t s0 else s0)
      in (True, s1))"

definition on_touch_up :: "touch \<Rightarrow> modal_view \<Rightarrow> (bool \<times> modal_view) option" where
  "on_touch_up t s0 =
     (case (if auto_dismiss s0 \<and> touch_started_inside s0 = Some False
            then dismiss False True s0
            else Some (super_on_touch_up t s0)) of
        None \<Rightarrow> None
      | Some s1 \<Rightarrow> Some (True, s1\<lparr>touch_started_inside := None\<rparr>))"

text \<open>
  \<open>_handle_keyboard\<close>: returns \<open>True\<close>, or falls off the end and returns \<open>None\<close>,
  which the window reads as not consumed: \<open>False\<close> here.
\<close>

definition handle_keyboard :: "int \<Rightarrow> modal_view \<Rightarrow> (bool \<times> modal_view) option" where
  "handle_keyboard key s =
     (if key = 27 \<and> auto_dismiss s then
        (case dismiss False True s of
           None \<Rightarrow> None
         | Some s1 \<Rightarrow> Some (True, s1))
      else Some (False, s))"

subsection \<open>Completion of an animation\<close>

text \<open>
  Modelled from the spec: \<open>Animation\<close> is not under src/. When a running animation
  reaches the end of its duration the property has its target value, the animation is
  no longer running and its \<open>on_complete\<close> callback is called, once. An animation that
  is not running (stopped, or completed before) does nothing.
\<close>

definition anim_complete :: "nat \<Rightarrow> modal_view \<Rightarrow> modal_view option" where
  "anim_complete h s0 =
     (case map_of (running s0) h of
        None \<Rightarrow> Some s0
      | Some a \<Rightarrow>
          let s1 = s0\<lparr>anim_alpha := to_anim_alpha a,
                     running := filter (\<lambda>p. fst p \<noteq> h) (running s0),
                     trace := trace s0 @ [Anim_complete h]\<rparr>
          in (case on_complete a of
                Dispatch_on_open \<Rightarrow> Some (snd (dispatch On_open s1))
              | Call_real_remove_widget \<Rightarrow> real_remove_widget s1))"

subsection \<open>Auxiliary definitions\<close>

text \<open>The calls \<open>_clear_anim\<close> makes: it stops the animation named by \<open>_anim\<close>, if any.\<close>

definition clear_anim_calls :: "modal_view \<Rightarrow> call list" where
  "clear_anim_calls s = (case anim s of None \<Rightarrow> [] | Some h \<Rightarrow> [Anim_stop h])"

text \<open>
  A new \<open>ModalView()\<close> with the defaults of the class, in a window that holds one
  other widget; no callback is bound to the view's events.
\<close>

definition fresh_view :: modal_view where
  "fresh_view =
     \<lparr>auto_dismiss = True, anim = None, anim_alpha = 0, anim_duration = 1 / 10,
      window = None, is_open = False, touch_started_inside = None, center = (50, 50),
      the_window = \<lparr>children = [Other_widget 0], on_resize = [], on_keyboard = [],
                     window_center = (400, 300)\<rparr>,
      running = [], next_handle = 0, listeners = [], trace = []\<rparr>"

text \<open>The same view with a callback bound to \<open>on_dismiss\<close> that returns \<open>True\<close>.\<close>

definition vetoing_view :: modal_view where
  "vetoing_view = fresh_view\<lparr>listeners := [(On_dismiss, True)]\<rparr>"



text \<open>
  \<open>open(animation=False)\<close> then \<open>dismiss()\<close>: the fade-out is running. Then the
  fade-out completes: the view is closed, and \<open>_anim\<close> still names the animation.
\<close>

definition fading_out :: "modal_view option" where
  "fading_out = dismiss False True (open_view False fresh_view)"

definition closed_after_fade_out :: "modal_view option" where
  "closed_after_fade_out = Option.bind fading_out (anim_complete 0)"

text \<open>The state in which the fade-out is running, written out.\<close>

definition fading_view :: modal_view where
  "fading_view =
     \<lparr>auto_dismiss = True, anim = Some 0, anim_alpha = 1, anim_duration = 1 / 10,
      window = Some Window, is_open = True, touch_started_inside = None, center = (400, 300),
      the_window = \<lparr>children = [ModalView, Other_widget 0], on_resize = [Align_center],
                     on_keyboard = [Handle_keyboard], window_center = (400, 300)\<rparr>,
      running = [(0, \<lparr>to_anim_alpha = 0, duration = 1 / 10,
                      on_complete = Call_real_remove_widget\<rparr>)],
      next_handle = 1, listeners = [],
      trace = [Dispatch On_pre_open, Window_add_widget, Window_bind, Fbind ''center'',
               Fbind ''size'', Dispatch On_open, Dispatch On_pre_dismiss,
               Dispatch On_dismiss, Anim_start 0]\<rparr>"

text \<open>Then \<open>open()\<close> is called while the fade-out is running.\<close>

definition reopened_while_fading :: "modal_view option" where
  "reopened_while_fading = map_option (open_view True) fading_out"

subsection \<open>Reachable states\<close>

text \<open>
  The states a view can be in: a view is created closed, with no animation, and from
  then on its methods are called (by the application, by the window for touches, keys
  and resizes, by the view's own observers), its animations complete, and the
  application and the window change what is theirs: the public properties, the bound
  callbacks, the window.
\<close>

inductive reachable :: "modal_view \<Rightarrow> bool" where
  created: "anim s = None \<Longrightarrow> running s = [] \<Longrightarrow> \<not> is_open s \<Longrightarrow> window s = None \<Longrightarrow>
            touch_started_inside s = None \<Longrightarrow> reachable s"
| opened: "reachable s \<Longrightarrow> reachable (open_view animation s)"
| dismissed: "reachable s \<Longrightarrow> dismiss force animation s = Some s' \<Longrightarrow> reachable s'"
| touched_down: "reachable s \<Longrightarrow> reachable (snd (on_touch_down collide_point t s))"
| touch_moved: "reachable s \<Longrightarrow> reachable (snd (on_touch_move t s))"
| touched_up: "reachable s \<Longrightarrow> on_touch_up t s = Some (r, s') \<Longrightarrow> reachable s'"
| key_pressed: "reachable s \<Longrightarrow> handle_keyboard key s = Some (r, s') \<Longrightarrow> reachable s'"
| aligned: "reachable s \<Longrightarrow> align_center s = Some s' \<Longrightarrow> reachable s'"
| completed: "reachable s \<Longrightarrow> anim_complete h s = Some s' \<Longrightarrow> reachable s'"
| configured: "reachable s \<Longrightarrow>
     reachable (s\<lparr>auto_dismiss := b, anim_duration := d, center := c, the_window := w,
                  listeners := ls\<rparr>)"

text \<open>
  At most one animation is running on the view, and \<open>_anim\<close> names it.
\<close>

definition one_animation :: "modal_view \<Rightarrow> bool" where
  "one_animation s = (length (running s) \<le> 1 \<and> (\<forall>p \<in> set (running s). anim s = Some (fst p)))"

text \<open>
  An open view holds the window in \<open>_window\<close>, and nothing is running on a closed
  view.
\<close>

definition consistent :: "modal_view \<Rightarrow> bool" where
  "consistent s =
     ((is_open s \<longrightarrow> window s = Some Window) \<and> (\<not> is_open s \<longrightarrow> running s = []))"

section \<open>Properties\<close>

subsection \<open>Basic facts\<close>

lemmas collaborator_defs =
  dispatch_def window_add_widget_def window_remove_widget_def window_bind_def
  window_unbind_def fbind_def anim_start_def anim_stop_def
  super_on_touch_down_def super_on_touch_move_def super_on_touch_up_def

lemmas method_defs =
  open_view_def dismiss_def real_remove_widget_def clear_anim_def align_center_def
  anim_complete_def on_touch_down_def on_touch_move_def on_touch_up_def handle_keyboard_def

lemma dispatch_simps [simp]:
  "fst (dispatch ev s) = ((ev, True) \<in> set (listeners s))"
  "snd (dispatch ev s) = s\<lparr>trace := trace s @ [Dispatch ev]\<rparr>"
  by (simp_all add: dispatch_def)

lemma clear_anim_fields [simp]:
  "is_open (clear_anim s) = is_open s"
  "window (clear_anim s) = window s"
  "the_window (clear_anim s) = the_window s"
  "listeners (clear_anim s) = listeners s"
  "auto_dismiss (clear_anim s) = auto_dismiss s"
  "next_handle (clear_anim s) = next_handle s"
  "anim_duration (clear_anim s) = anim_duration s"
  "anim_alpha (clear_anim s) = anim_alpha s"
  "center (clear_anim s) = center s"
  "touch_started_inside (clear_anim s) = touch_started_inside s"
  "anim (clear_anim s) = None"
  by (simp_all add: clear_anim_def anim_stop_def split: option.splits)

lemma clear_anim_trace [simp]: "trace (clear_anim s) = trace s @ clear_anim_calls s"
  by (simp add: clear_anim_def anim_stop_def clear_anim_calls_def split: option.splits)

lemma clear_anim_running:
  "running (clear_anim s) =
     (case anim s of None \<Rightarrow> running s | Some h \<Rightarrow> filter (\<lambda>p. fst p \<noteq> h) (running s))"
  by (simp add: clear_anim_def anim_stop_def split: option.splits)

lemma map_of_filter_other [simp]: "map_of (filter (\<lambda>p. fst p \<noteq> h) xs) h = None"
  by (induction xs) auto

text \<open>
  \<open>dismiss\<close> on an open view, step by step: the state after the two dispatches, and
  the three ways on from there.
\<close>

lemma dismiss_open:
  "is_open s \<Longrightarrow>
   dismiss force animation s =
     (let s3 = (clear_anim s)\<lparr>trace := trace s @ clear_anim_calls s @
                   [Dispatch On_pre_dismiss, Dispatch On_dismiss]\<rparr>
      in if (On_dismiss, True) \<in> set (listeners s) \<and> \<not> force then Some s3
         else if animation then
           Some (s3\<lparr>running := (next_handle s,
                       \<lparr>to_anim_alpha = 0, duration = anim_duration s,
                        on_complete = Call_real_remove_widget\<rparr>) # running (clear_anim s),
                    next_handle := Suc (next_handle s),
                    trace := trace s3 @ [Anim_start (next_handle s)],
                    anim := Some (next_handle s)\<rparr>)
         else real_remove_widget s3)"
  by (simp add: dismiss_def Let_def dispatch_def anim_start_def split_def)

lemma open_fresh_eq:
  "open_view False fresh_view =
     \<lparr>auto_dismiss = True, anim = None, anim_alpha = 1, anim_duration = 1 / 10,
      window = Some Window, is_open = True, touch_started_inside = None, center = (400, 300),
      the_window = \<lparr>children = [ModalView, Other_widget 0], on_resize = [Align_center],
                     on_keyboard = [Handle_keyboard], window_center = (400, 300)\<rparr>,
      running = [], next_handle = 0, listeners = [],
      trace = [Dispatch On_pre_open, Window_add_widget, Window_bind,
               Fbind ''center'', Fbind ''size'', Dispatch On_open]\<rparr>"
  by (simp add: open_view_def clear_anim_def fresh_view_def collaborator_defs Let_def)

text \<open>The invariant of the reachable states.\<close>

lemma one_animation_clear: "one_animation s \<Longrightarrow> running (clear_anim s) = []"
  by (cases "running s") (auto simp add: one_animation_def clear_anim_running split: option.splits)

lemma one_animation_open: "one_animation s \<Longrightarrow> one_animation (open_view animation s)"
  using one_animation_clear [of s]
  by (simp add: open_view_def Let_def collaborator_defs one_animation_def split_def)

lemma real_remove_widget_anim:
  "real_remove_widget s = Some s' \<Longrightarrow> running s' = running s \<and> anim s' = anim s"
  by (auto simp add: real_remove_widget_def window_unbind_def window_remove_widget_def
      split: if_splits option.splits window_ref.splits)

lemma one_animation_dismiss:
  "one_animation s \<Longrightarrow> dismiss force animation s = Some s' \<Longrightarrow> one_animation s'"
  using one_animation_clear [of s]
  by (auto simp add: dismiss_def Let_def collaborator_defs one_animation_def split_def
      split: if_splits dest!: real_remove_widget_anim)

lemma one_animation_complete:
  "one_animation s \<Longrightarrow> anim_complete h s = Some s' \<Longrightarrow> one_animation s'"
  apply (cases "running s")
  apply (auto simp add: anim_complete_def Let_def one_animation_def dispatch_def
      split: option.splits completion.splits if_splits dest!: real_remove_widget_anim)
  done

lemma one_animation_touch_up:
  assumes inv: "one_animation s" and up: "on_touch_up t s = Some (r, s')"
  shows "one_animation s'"
proof (cases "auto_dismiss s \<and> touch_started_inside s = Some False")
  case True
  with up obtain s1 where d: "dismiss False True s = Some s1"
    and s': "s' = s1\<lparr>touch_started_inside := None\<rparr>"
    by (auto simp add: on_touch_up_def split: option.splits)
  from inv d have "one_animation s1" by (rule one_animation_dismiss)
  with s' show ?thesis by (simp add: one_animation_def)
next
  case False
  with up have "s' = s\<lparr>trace := trace s @ [Super_on_touch_up t], touch_started_inside := None\<rparr>"
    by (auto simp add: on_touch_up_def super_on_touch_up_def)
  with inv show ?thesis by (simp add: one_animation_def)
qed

lemma reachable_one_animation: "reachable s \<Longrightarrow> one_animation s"
proof (induction rule: reachable.induct)
  case (created s)
  then show ?case by (simp add: one_animation_def)
next
  case (opened s animation)
  then show ?case by (simp add: one_animation_open)
next
  case (dismissed s force animation s')
  then show ?case by (blast intro: one_animation_dismiss)
next
  case (touched_down s collide_point t)
  then show ?case
    by (simp add: on_touch_down_def Let_def super_on_touch_down_def one_animation_def)
next
  case (touch_moved s t)
  then show ?case
    by (simp add: on_touch_move_def Let_def super_on_touch_move_def one_animation_def)
next
  case (touched_up s t r s')
  then show ?case
    by (blast intro: one_animation_touch_up)
next
  case (key_pressed s key r s')
  then show ?case
    by (auto simp add: handle_keyboard_def split: if_splits option.splits
        dest: one_animation_dismiss)
next
  case (aligned s s')
  then show ?case
    by (auto simp add: align_center_def one_animation_def
        split: if_splits option.splits window_ref.splits)
next
  case (completed s h s')
  then show ?case by (blast intro: one_animation_complete)
next
  case (configured s b d c w ls)
  then show ?case by (simp add: one_animation_def)
qed

lemma fading_out_eq: "fading_out = Some fading_view"
  by (simp add: fading_out_def fading_view_def method_defs fresh_view_def
      collaborator_defs Let_def)

lemma consistent_open:
  "consistent s \<Longrightarrow> consistent (open_view animation s)"
  by (simp add: open_view_def Let_def collaborator_defs consistent_def split_def)

lemma consistent_real_remove_widget:
  "consistent s \<Longrightarrow> running s = [] \<Longrightarrow> real_remove_widget s = Some s' \<Longrightarrow> consistent s'"
  by (auto simp add: real_remove_widget_def window_unbind_def window_remove_widget_def
      consistent_def split: if_splits option.splits window_ref.splits)

lemma consistent_dismiss:
  assumes "one_animation s" and "consistent s" and "dismiss force animation s = Some s'"
  shows "consistent s'"
proof (cases "is_open s")
  case False
  with assms show ?thesis
    by (auto simp add: dismiss_def Let_def consistent_def clear_anim_running
        split: option.splits)
next
  case True
  let ?s3 = "(clear_anim s)\<lparr>trace := trace s @ clear_anim_calls s @
                   [Dispatch On_pre_dismiss, Dispatch On_dismiss]\<rparr>"
  have c3: "consistent ?s3" "running ?s3 = []"
    using assms(1,2) True one_animation_clear [of s] by (simp_all add: consistent_def)
  from assms(3) True show ?thesis
    using c3 consistent_real_remove_widget [of ?s3 s']
    by (auto simp add: dismiss_open Let_def consistent_def split: if_splits)
qed

lemma consistent_complete:
  assumes "one_animation s" and "consistent s" and "anim_complete h s = Some s'"
  shows "consistent s'"
proof (cases "map_of (running s) h")
  case None
  with assms show ?thesis by (simp add: anim_complete_def)
next
  case (Some a)
  then have mem: "(h, a) \<in> set (running s)" by (rule map_of_SomeD)
  with assms(1) have run: "running s = [(h, a)]"
    by (cases "running s") (auto simp add: one_animation_def)
  let ?s1 = "s\<lparr>anim_alpha := to_anim_alpha a,
                running := filter (\<lambda>p. fst p \<noteq> h) (running s),
                trace := trace s @ [Anim_complete h]\<rparr>"
  from run assms(2) have c1: "consistent ?s1" "running ?s1 = []"
    by (auto simp add: consistent_def)
  from assms(3) Some show ?thesis
    using c1 consistent_real_remove_widget [of ?s1 s']
    by (auto simp add: anim_complete_def Let_def consistent_def split: completion.splits)
qed

lemma reachable_consistent: "reachable s \<Longrightarrow> consistent s"
proof (induction rule: reachable.induct)
  case (created s)
  then show ?case by (simp add: consistent_def)
next
  case (opened s animation)
  then show ?case by (simp add: consistent_open)
next
  case (dismissed s force animation s')
  then show ?case by (blast intro: consistent_dismiss reachable_one_animation)
next
  case (touched_down s collide_point t)
  then show ?case
    by (simp add: on_touch_down_def Let_def super_on_touch_down_def consistent_def)
next
  case (touch_moved s t)
  then show ?case
    by (simp add: on_touch_move_def Let_def super_on_touch_move_def consistent_def)
next
  case (touched_up s t r s')
  show ?case
  proof (cases "auto_dismiss s \<and> touch_started_inside s = Some False")
    case True
    with touched_up(2) obtain s1 where d: "dismiss False True s = Some s1"
      and s': "s' = s1\<lparr>touch_started_inside := None\<rparr>"
      by (auto simp add: on_touch_up_def split: option.splits)
    from reachable_one_animation [OF touched_up(1)] touched_up(3) d
    have "consistent s1" by (rule consistent_dismiss)
    with s' show ?thesis by (simp add: consistent_def)
  next
    case False
    with touched_up(2)
    have "s' = s\<lparr>trace := trace s @ [Super_on_touch_up t], touch_started_inside := None\<rparr>"
      by (auto simp add: on_touch_up_def super_on_touch_up_def)
    with touched_up(3) show ?thesis by (simp add: consistent_def)
  qed
next
  case (key_pressed s key r s')
  then show ?case
    by (auto simp add: handle_keyboard_def split: if_splits option.splits
        dest: consistent_dismiss [OF reachable_one_animation])
next
  case (aligned s s')
  then show ?case
    by (auto simp add: align_center_def consistent_def
        split: if_splits option.splits window_ref.splits)
next
  case (completed s h s')
  then show ?case by (blast intro: consistent_complete reachable_one_animation)
next
  case (configured s b d c w ls)
  then show ?case by (simp add: consistent_def)
qed

subsection \<open>A vetoed and a forced dismiss\<close>

text \<open>
  C1. For a call of \<open>dismiss()\<close> on an open view (\<open>_is_open\<close> true, \<open>_window\<close> the
  window): if the dispatch of \<open>on_dismiss\<close> returns true and \<open>force\<close> is false, the
  dismiss aborts: the call returns the state \<open>_clear_anim\<close> left, with the two
  dispatches added to the trace and nothing else, so \<open>_is_open\<close> is still true, the
  window, with the view among its children, is as it was, no fade-out has been started
  and \<open>_anim\<close> is \<open>None\<close>. With \<open>force\<close> true the dismissal goes on whatever the
  listeners return: without animation the view is removed and closed at once, with
  animation the fade-out whose completion calls \<open>_real_remove_widget\<close> is started and
  stored in \<open>_anim\<close>. In every such call, forced or not, \<open>on_dismiss\<close> is among the
  calls made.
\<close>

theorem dismiss_veto_and_force:
  "is_open s \<Longrightarrow> window s = Some Window \<Longrightarrow>
     (fst (dispatch On_dismiss s) \<longrightarrow>
        (\<exists>s'. dismiss False animation s = Some s' \<and> is_open s' \<and>
              window s' = window s \<and> the_window s' = the_window s \<and>
              s' = (clear_anim s)\<lparr>trace := trace s @ clear_anim_calls s @
                     [Dispatch On_pre_dismiss, Dispatch On_dismiss]\<rparr> \<and>
              anim s' = None \<and> running s' = running (clear_anim s) \<and>
              next_handle s' = next_handle s \<and> anim_alpha s' = anim_alpha s)) \<and>
     (\<exists>s'. dismiss True False s = Some s' \<and> \<not> is_open s' \<and> window s' = None \<and>
           children (the_window s') = remove1 ModalView (children (the_window s))) \<and>
     (\<exists>s'. dismiss True True s = Some s' \<and> anim s' = Some (next_handle s) \<and>
           map_of (running s') (next_handle s) =
             Some \<lparr>to_anim_alpha = 0, duration = anim_duration s,
                   on_complete = Call_real_remove_widget\<rparr>) \<and>
     (\<exists>s'. dismiss force animation s = Some s' \<and>
           Dispatch On_dismiss \<in> set (drop (length (trace s)) (trace s')))"
  by (simp add: dismiss_open Let_def real_remove_widget_def window_unbind_def
      window_remove_widget_def)

theorem dismiss_veto_and_force_witness:
  "is_open (open_view False vetoing_view) \<and>
   window (open_view False vetoing_view) = Some Window \<and>
   fst (dispatch On_dismiss (open_view False vetoing_view)) \<and>
   dismiss False True (open_view False vetoing_view) =
     Some ((open_view False vetoing_view)
       \<lparr>trace := trace (open_view False vetoing_view) @
          [Dispatch On_pre_dismiss, Dispatch On_dismiss]\<rparr>) \<and>
   map_option anim (dismiss False True (open_view False vetoing_view)) = Some None \<and>
   map_option running (dismiss False True (open_view False vetoing_view)) = Some [] \<and>
   map_option is_open (dismiss True False (open_view False vetoing_view)) = Some False"
  using dismiss_veto_and_force
    [where s = "open_view False vetoing_view" and animation = True and force = True]
  by (simp add: method_defs vetoing_view_def fresh_view_def collaborator_defs Let_def)

subsection \<open>One animation at a time\<close>

text \<open>
  C2, as amended. In every reachable state at most one animation is running on the
  view, and it is the one \<open>_anim\<close> names. While a fade-out is running \<open>_is_open\<close> is
  true, so \<open>open()\<close> changes nothing: the fade-out stays the running animation and
  stays in \<open>_anim\<close>, and when it completes its callback removes the view from the
  window and closes it. \<open>_clear_anim\<close> stops the animation \<open>_anim\<close> names. When
  \<open>open()\<close> on a closed view or an unvetoed \<open>dismiss()\<close> on an open view starts an
  animation, the calls of \<open>_clear_anim\<close> come first, and afterwards the new animation
  is the only one running and \<open>_anim\<close> names it.
\<close>

theorem one_animation_at_a_time:
  "reachable s \<Longrightarrow>
     length (running s) \<le> 1 \<and>
     (\<forall>p \<in> set (running s). anim s = Some (fst p)) \<and>
     (\<forall>h a. (h, a) \<in> set (running s) \<and> on_complete a = Call_real_remove_widget \<longrightarrow>
        is_open s \<and> open_view animation s = s \<and>
        (\<exists>s'. anim_complete h s = Some s' \<and> \<not> is_open s' \<and> window s' = None \<and>
              children (the_window s') = remove1 ModalView (children (the_window s)) \<and>
              trace s' = trace s @
                [Anim_complete h, Window_remove_widget, Window_unbind])) \<and>
     (is_open s \<longrightarrow> open_view animation s = s) \<and>
     (\<forall>h. anim s = Some h \<longrightarrow> clear_anim_calls s = [Anim_stop h]) \<and>
     (\<not> is_open s \<longrightarrow>
        anim (open_view True s) = Some (next_handle s) \<and>
        running (open_view True s) =
          [(next_handle s, \<lparr>to_anim_alpha = 1, duration = anim_duration s,
                            on_complete = Dispatch_on_open\<rparr>)] \<and>
        trace (open_view True s) = trace s @ clear_anim_calls s @
          [Dispatch On_pre_open, Window_add_widget, Window_bind, Fbind ''center'',
           Fbind ''size'', Anim_start (next_handle s)]) \<and>
     (is_open s \<and> (force \<or> \<not> fst (dispatch On_dismiss s)) \<longrightarrow>
        (\<exists>s'. dismiss force True s = Some s' \<and>
           anim s' = Some (next_handle s) \<and>
           running s' =
             [(next_handle s, \<lparr>to_anim_alpha = 0, duration = anim_duration s,
                               on_complete = Call_real_remove_widget\<rparr>)] \<and>
           trace s' = trace s @ clear_anim_calls s @
             [Dispatch On_pre_dismiss, Dispatch On_dismiss, Anim_start (next_handle s)]))"
proof -
  assume r: "reachable s"
  then have inv: "one_animation s" by (rule reachable_one_animation)
  then have cleared: "running (clear_anim s) = []" by (rule one_animation_clear)
  from r have cons: "consistent s" by (rule reachable_consistent)
  from inv have one: "length (running s) \<le> 1" "\<forall>p \<in> set (running s). anim s = Some (fst p)"
    by (simp_all add: one_animation_def)
  have fade_out: "is_open s \<and> open_view animation s = s \<and>
        (\<exists>s'. anim_complete h s = Some s' \<and> \<not> is_open s' \<and> window s' = None \<and>
              children (the_window s') = remove1 ModalView (children (the_window s)) \<and>
              trace s' = trace s @
                [Anim_complete h, Window_remove_widget, Window_unbind])"
    if mem: "(h, a) \<in> set (running s)" and oc: "on_complete a = Call_real_remove_widget"
    for h a
  proof -
    from mem one(1) have run: "running s = [(h, a)]"
      by (cases "running s") auto
    with cons have o: "is_open s" "window s = Some Window"
      by (auto simp add: consistent_def)
    from o(1) have "open_view animation s = s" by (simp add: open_view_def)
    moreover from run oc o
    have "\<exists>s'. anim_complete h s = Some s' \<and> \<not> is_open s' \<and> window s' = None \<and>
              children (the_window s') = remove1 ModalView (children (the_window s)) \<and>
              trace s' = trace s @
                [Anim_complete h, Window_remove_widget, Window_unbind]"
      by (simp add: anim_complete_def Let_def real_remove_widget_def window_unbind_def
          window_remove_widget_def)
    ultimately show ?thesis using o(1) by blast
  qed
  have noop: "is_open s \<longrightarrow> open_view animation s = s"
    by (simp add: open_view_def)
  have stop: "\<forall>h. anim s = Some h \<longrightarrow> clear_anim_calls s = [Anim_stop h]"
    by (simp add: clear_anim_calls_def)
  from cleared have fade_in_started: "\<not> is_open s \<longrightarrow>
        anim (open_view True s) = Some (next_handle s) \<and>
        running (open_view True s) =
          [(next_handle s, \<lparr>to_anim_alpha = 1, duration = anim_duration s,
                            on_complete = Dispatch_on_open\<rparr>)] \<and>
        trace (open_view True s) = trace s @ clear_anim_calls s @
          [Dispatch On_pre_open, Window_add_widget, Window_bind, Fbind ''center'',
           Fbind ''size'', Anim_start (next_handle s)]"
    by (simp add: open_view_def Let_def collaborator_defs split_def)
  from cleared have fade_out_started:
    "is_open s \<and> (force \<or> \<not> fst (dispatch On_dismiss s)) \<longrightarrow>
        (\<exists>s'. dismiss force True s = Some s' \<and>
           anim s' = Some (next_handle s) \<and>
           running s' =
             [(next_handle s, \<lparr>to_anim_alpha = 0, duration = anim_duration s,
                               on_complete = Call_real_remove_widget\<rparr>)] \<and>
           trace s' = trace s @ clear_anim_calls s @
             [Dispatch On_pre_dismiss, Dispatch On_dismiss, Anim_start (next_handle s)])"
    by (auto simp add: dismiss_open Let_def)
  from one fade_out noop stop fade_in_started fade_out_started show ?thesis
    by blast
qed

theorem one_animation_at_a_time_witness:
  "reachable fading_view \<and>
   (0, \<lparr>to_anim_alpha = 0, duration = 1 / 10, on_complete = Call_real_remove_widget\<rparr>)
     \<in> set (running fading_view) \<and>
   length (running fading_view) \<le> 1 \<and>
   is_open fading_view \<and>
   open_view True fading_view = fading_view \<and>
   map_option is_open (anim_complete 0 fading_view) = Some False"
proof -
  have "reachable fresh_view"
    by (rule reachable.created) (simp_all add: fresh_view_def)
  then have "reachable (open_view False fresh_view)"
    by (rule reachable.opened)
  moreover have "dismiss False True (open_view False fresh_view) = Some fading_view"
    using fading_out_eq by (simp add: fading_out_def)
  ultimately have r: "reachable fading_view"
    by (rule reachable.dismissed)
  have mem: "(0, \<lparr>to_anim_alpha = 0, duration = 1 / 10, on_complete = Call_real_remove_widget\<rparr>)
     \<in> set (running fading_view)"
    by (simp add: fading_view_def)
  have oc: "on_complete \<lparr>to_anim_alpha = 0, duration = 1 / 10,
      on_complete = Call_real_remove_widget\<rparr> = Call_real_remove_widget"
    by simp
  from one_animation_at_a_time [OF r, where animation = True and force = True] mem oc
  have len: "length (running fading_view) \<le> 1"
    and fo: "is_open fading_view \<and> open_view True fading_view = fading_view \<and>
      (\<exists>s'. anim_complete 0 fading_view = Some s' \<and> \<not> is_open s')"
    by blast+
  from fo have "map_option is_open (anim_complete 0 fading_view) = Some False"
    by auto
  with r mem len fo show ?thesis by blast
qed

text \<open>
  The claim as stated fails: after \<open>open(animation=False)\<close> and \<open>dismiss()\<close> the
  fade-out 0 is running and \<open>_is_open\<close> is true, so \<open>open()\<close> returns at once: the
  state, with \<open>_anim\<close> and the running fade-out, is the same. When the fade-out then
  completes, its callback removes the view from the window and closes it.
\<close>

theorem reopen_while_fading_counterexample:
  "map_option anim fading_out = Some (Some 0) \<and>
   map_option running fading_out =
     Some [(0, \<lparr>to_anim_alpha = 0, duration = 1 / 10, on_complete = Call_real_remove_widget\<rparr>)] \<and>
   reopened_while_fading = fading_out \<and>
   map_option is_open (Option.bind reopened_while_fading (anim_complete 0)) = Some False \<and>
   map_option trace (Option.bind reopened_while_fading (anim_complete 0)) =
     Some [Dispatch On_pre_open, Window_add_widget, Window_bind, Fbind ''center'',
           Fbind ''size'', Dispatch On_open, Dispatch On_pre_dismiss, Dispatch On_dismiss,
           Anim_start 0, Anim_complete 0, Window_remove_widget, Window_unbind]"
  by (simp add: reopened_while_fading_def fading_out_def method_defs fresh_view_def
      collaborator_defs Let_def)

subsection \<open>dismiss() on a closed view\<close>

text \<open>
  C3, as amended. In every state in which \<open>_is_open\<close> is false, \<open>dismiss()\<close> does
  what \<open>_clear_anim\<close> does and nothing else: it dispatches no event, and it changes no
  field of the view and nothing in the window, except that the animation named by
  \<open>_anim\<close>, if there is one, is stopped and \<open>_anim\<close> becomes \<open>None\<close>.
\<close>

theorem dismiss_while_closed:
  "\<not> is_open s \<Longrightarrow>
     dismiss force animation s = Some (clear_anim s) \<and>
     trace (clear_anim s) = trace s @ clear_anim_calls s \<and>
     (\<forall>ev. Dispatch ev \<notin> set (clear_anim_calls s)) \<and>
     anim (clear_anim s) = None \<and>
     running (clear_anim s) =
       (case anim s of None \<Rightarrow> running s
        | Some h \<Rightarrow> filter (\<lambda>p. fst p \<noteq> h) (running s)) \<and>
     clear_anim s\<lparr>anim := anim s, running := running s, trace := trace s\<rparr> = s"
  by (auto simp add: dismiss_def Let_def clear_anim_running clear_anim_calls_def
      clear_anim_def anim_stop_def split: option.splits)

theorem dismiss_while_closed_witness:
  "\<not> is_open (fresh_view\<lparr>anim := Some 7\<rparr>) \<and>
   dismiss False True (fresh_view\<lparr>anim := Some 7\<rparr>) =
     Some (fresh_view\<lparr>trace := [Anim_stop 7]\<rparr>)"
  using dismiss_while_closed [of "fresh_view\<lparr>anim := Some 7\<rparr>" False True]
  by (simp add: fresh_view_def clear_anim_def anim_stop_def)

text \<open>
  The claim as stated fails: after \<open>open(animation=False)\<close>, \<open>dismiss()\<close> and the
  completion of the fade-out the view is closed and \<open>_anim\<close> names the finished
  animation; a further \<open>dismiss()\<close> sets \<open>_anim\<close> to \<open>None\<close>.
\<close>

theorem dismiss_while_closed_counterexample:
  "map_option is_open closed_after_fade_out = Some False \<and>
   map_option anim closed_after_fade_out = Some (Some 0) \<and>
   map_option anim (Option.bind closed_after_fade_out (dismiss False True)) = Some None"
  by (simp add: closed_after_fade_out_def fading_out_def method_defs fresh_view_def
      collaborator_defs Let_def)

subsection \<open>open() on an open view\<close>

text \<open>
  C4. In every state in which \<open>_is_open\<close> is true, \<open>open()\<close> returns at once and
  changes nothing: the resulting state is the state before the call, so the view is
  not inserted into the window a second time, no event is dispatched (the trace is
  the same) and every field of the view keeps its value.
\<close>

theorem open_while_open_noop: "is_open s \<Longrightarrow> open_view animation s = s"
  by (simp add: open_view_def)

theorem open_while_open_noop_witness:
  "is_open (open_view False fresh_view) \<and>
   open_view True (open_view False fresh_view) = open_view False fresh_view"
  using open_while_open_noop [of "open_view False fresh_view" True]
  by (simp add: open_view_def fresh_view_def collaborator_defs Let_def)

subsection \<open>The order of events\<close>

text \<open>
  C5. The calls made by \<open>open()\<close> on a closed view, after those of \<open>_clear_anim\<close>:
  \<open>on_pre_open\<close> is dispatched, then the view is added to the window and bound;
  without animation \<open>_anim_alpha\<close> is set to 1 and \<open>on_open\<close> is dispatched last;
  with animation the fade-in is started and \<open>on_open\<close> is not dispatched by the call,
  it is dispatched when the fade-in completes. The calls made by \<open>dismiss()\<close> on an
  open view: \<open>on_pre_dismiss\<close> is dispatched, then \<open>on_dismiss\<close>, whose result
  decides the veto; if the dismiss goes on, then without animation the view is removed
  from the window and unbound at once, and with animation the fade-out is started after
  \<open>on_dismiss\<close>, nothing is removed by the call, and the view is removed when the
  fade-out completes.
\<close>

theorem event_ordering:
  "(\<not> is_open s \<longrightarrow>
      trace (open_view False s) = trace s @ clear_anim_calls s @
        [Dispatch On_pre_open, Window_add_widget, Window_bind, Fbind ''center'',
         Fbind ''size'', Dispatch On_open] \<and>
      anim_alpha (open_view False s) = 1 \<and>
      trace (open_view True s) = trace s @ clear_anim_calls s @
        [Dispatch On_pre_open, Window_add_widget, Window_bind, Fbind ''center'',
         Fbind ''size'', Anim_start (next_handle s)] \<and>
      (\<exists>s'. anim_complete (next_handle s) (open_view True s) = Some s' \<and>
            trace s' = trace (open_view True s) @
              [Anim_complete (next_handle s), Dispatch On_open] \<and>
            anim_alpha s' = 1)) \<and>
   (is_open s \<and> window s = Some Window \<longrightarrow>
      (\<exists>s'. dismiss force False s = Some s' \<and>
            trace s' = trace s @ clear_anim_calls s @
              [Dispatch On_pre_dismiss, Dispatch On_dismiss] @
              (if fst (dispatch On_dismiss s) \<and> \<not> force then []
               else [Window_remove_widget, Window_unbind])) \<and>
      (\<exists>s'. dismiss force True s = Some s' \<and>
            trace s' = trace s @ clear_anim_calls s @
              [Dispatch On_pre_dismiss, Dispatch On_dismiss] @
              (if fst (dispatch On_dismiss s) \<and> \<not> force then []
               else [Anim_start (next_handle s)]) \<and>
            (force \<or> \<not> fst (dispatch On_dismiss s) \<longrightarrow>
               (\<exists>s''. anim_complete (next_handle s) s' = Some s'' \<and>
                  trace s'' = trace s' @
                    [Anim_complete (next_handle s), Window_remove_widget, Window_unbind] \<and>
                  \<not> is_open s''))))"
proof (intro conjI impI)
  assume closed: "\<not> is_open s"
  then show "trace (open_view False s) = trace s @ clear_anim_calls s @
        [Dispatch On_pre_open, Window_add_widget, Window_bind, Fbind ''center'',
         Fbind ''size'', Dispatch On_open]"
    and "anim_alpha (open_view False s) = 1"
    and "trace (open_view True s) = trace s @ clear_anim_calls s @
        [Dispatch On_pre_open, Window_add_widget, Window_bind, Fbind ''center'',
         Fbind ''size'', Anim_start (next_handle s)]"
    by (simp_all add: open_view_def Let_def collaborator_defs split_def)
  from closed show "\<exists>s'. anim_complete (next_handle s) (open_view True s) = Some s' \<and>
            trace s' = trace (open_view True s) @
              [Anim_complete (next_handle s), Dispatch On_open] \<and>
            anim_alpha s' = 1"
    by (simp add: open_view_def Let_def collaborator_defs split_def anim_complete_def)
next
  assume opened: "is_open s \<and> window s = Some Window"
  then show "\<exists>s'. dismiss force False s = Some s' \<and>
            trace s' = trace s @ clear_anim_calls s @
              [Dispatch On_pre_dismiss, Dispatch On_dismiss] @
              (if fst (dispatch On_dismiss s) \<and> \<not> force then []
               else [Window_remove_widget, Window_unbind])"
    by (auto simp add: dismiss_open Let_def real_remove_widget_def window_unbind_def
        window_remove_widget_def)
  from opened show "\<exists>s'. dismiss force True s = Some s' \<and>
            trace s' = trace s @ clear_anim_calls s @
              [Dispatch On_pre_dismiss, Dispatch On_dismiss] @
              (if fst (dispatch On_dismiss s) \<and> \<not> force then []
               else [Anim_start (next_handle s)]) \<and>
            (force \<or> \<not> fst (dispatch On_dismiss s) \<longrightarrow>
               (\<exists>s''. anim_complete (next_handle s) s' = Some s'' \<and>
                  trace s'' = trace s' @
                    [Anim_complete (next_handle s), Window_remove_widget, Window_unbind] \<and>
                  \<not> is_open s''))"
    by (auto simp add: dismiss_open Let_def real_remove_widget_def window_unbind_def
        window_remove_widget_def anim_complete_def)
qed

theorem event_ordering_witness:
  "\<not> is_open fresh_view \<and>
   trace (open_view False fresh_view) =
     [Dispatch On_pre_open, Window_add_widget, Window_bind, Fbind ''center'',
      Fbind ''size'', Dispatch On_open] \<and>
   is_open (open_view False fresh_view) \<and> window (open_view False fresh_view) = Some Window \<and>
   map_option trace (dismiss False False (open_view False fresh_view)) =
     Some (trace (open_view False fresh_view) @
       [Dispatch On_pre_dismiss, Dispatch On_dismiss, Window_remove_widget, Window_unbind])"
proof -
  have closed: "\<not> is_open fresh_view" "trace fresh_view = []"
    "clear_anim_calls fresh_view = []"
    by (simp_all add: fresh_view_def clear_anim_calls_def)
  have opened: "is_open (open_view False fresh_view)"
    "window (open_view False fresh_view) = Some Window"
    "clear_anim_calls (open_view False fresh_view) = []"
    "\<not> fst (dispatch On_dismiss (open_view False fresh_view))"
    by (simp_all add: open_fresh_eq clear_anim_calls_def)
  from closed(1) event_ordering [of fresh_view False]
  have "trace (open_view False fresh_view) = trace fresh_view @ clear_anim_calls fresh_view @
        [Dispatch On_pre_open, Window_add_widget, Window_bind, Fbind ''center'',
         Fbind ''size'', Dispatch On_open]"
    by blast
  with closed have t1: "trace (open_view False fresh_view) =
        [Dispatch On_pre_open, Window_add_widget, Window_bind, Fbind ''center'',
         Fbind ''size'', Dispatch On_open]"
    by simp
  from opened(1,2) event_ordering [of "open_view False fresh_view" False]
  obtain s' where "dismiss False False (open_view False fresh_view) = Some s'"
    and "trace s' = trace (open_view False fresh_view) @
           clear_anim_calls (open_view False fresh_view) @
           [Dispatch On_pre_dismiss, Dispatch On_dismiss] @
           (if fst (dispatch On_dismiss (open_view False fresh_view)) \<and> \<not> False then []
            else [Window_remove_widget, Window_unbind])"
    by blast
  with opened(3,4) have t2: "map_option trace (dismiss False False (open_view False fresh_view)) =
     Some (trace (open_view False fresh_view) @
       [Dispatch On_pre_dismiss, Dispatch On_dismiss, Window_remove_widget, Window_unbind])"
    by simp
  from closed(1) t1 opened(1,2) t2 show ?thesis by blast
qed

subsection \<open>A full cycle without animation\<close>

text \<open>
  C6. From a closed view that is not among the window's children and whose methods
  are not bound to the window's \<open>on_resize\<close> and \<open>on_keyboard\<close>,
  \<open>open(animation=False)\<close> followed by \<open>dismiss(animation=False)\<close> that is not
  vetoed (no listener returns true, or \<open>force\<close>) returns, and afterwards \<open>_is_open\<close>
  is false, the view is not among the window's children, its methods are not bound to
  \<open>on_resize\<close> and \<open>on_keyboard\<close>, and \<open>_window\<close> is \<open>None\<close>.
\<close>

theorem open_dismiss_cycle:
  "\<not> is_open s \<Longrightarrow> ModalView \<notin> set (children (the_window s)) \<Longrightarrow>
   Align_center \<notin> set (on_resize (the_window s)) \<Longrightarrow>
   Handle_keyboard \<notin> set (on_keyboard (the_window s)) \<Longrightarrow>
   force \<or> \<not> fst (dispatch On_dismiss s) \<Longrightarrow>
     \<exists>s'. dismiss force False (open_view False s) = Some s' \<and>
          \<not> is_open s' \<and>
          ModalView \<notin> set (children (the_window s')) \<and>
          Align_center \<notin> set (on_resize (the_window s')) \<and>
          Handle_keyboard \<notin> set (on_keyboard (the_window s')) \<and>
          window s' = None"
proof -
  assume closed: "\<not> is_open s"
    and absent: "ModalView \<notin> set (children (the_window s))"
      "Align_center \<notin> set (on_resize (the_window s))"
      "Handle_keyboard \<notin> set (on_keyboard (the_window s))"
    and no_veto: "force \<or> \<not> fst (dispatch On_dismiss s)"
  let ?o = "open_view False s"
  have o: "is_open ?o" "window ?o = Some Window" "listeners ?o = listeners s"
    "children (the_window ?o) = ModalView # children (the_window s)"
    "on_resize (the_window ?o) = on_resize (the_window s) @ [Align_center]"
    "on_keyboard (the_window ?o) = on_keyboard (the_window s) @ [Handle_keyboard]"
    using closed by (simp_all add: open_view_def Let_def collaborator_defs)
  from no_veto o(3) have nv: "\<not> ((On_dismiss, True) \<in> set (listeners ?o) \<and> \<not> force)"
    by auto
  show ?thesis
    using o(1,2,4,5,6) absent nv
    by (simp add: dismiss_open [OF o(1)] Let_def real_remove_widget_def
        window_unbind_def window_remove_widget_def remove1_append)
qed

theorem open_dismiss_cycle_witness:
  "\<not> is_open fresh_view \<and> ModalView \<notin> set (children (the_window fresh_view)) \<and>
   Align_center \<notin> set (on_resize (the_window fresh_view)) \<and>
   Handle_keyboard \<notin> set (on_keyboard (the_window fresh_view)) \<and>
   \<not> fst (dispatch On_dismiss fresh_view) \<and>
   map_option is_open (dismiss False False (open_view False fresh_view)) = Some False \<and>
   map_option the_window (dismiss False False (open_view False fresh_view)) =
     Some (the_window fresh_view) \<and>
   map_option window (dismiss False False (open_view False fresh_view)) = Some None"
  using open_dismiss_cycle [of fresh_view False]
  by (simp add: method_defs fresh_view_def collaborator_defs Let_def)

subsection \<open>Touches\<close>



subsection \<open>The escape key\<close>

text \<open>
  C8. \<open>_handle_keyboard\<close>: when the key is 27 and \<open>auto_dismiss\<close> is true it calls
  \<open>dismiss()\<close> and returns \<open>True\<close>; for every other key, and whenever
  \<open>auto_dismiss\<close> is false, it changes nothing (so nothing is dismissed) and does not
  return \<open>True\<close>.
\<close>

theorem handle_keyboard_escape:
  "(key = 27 \<and> auto_dismiss s \<longrightarrow>
      handle_keyboard key s = map_option (Pair True) (dismiss False True s)) \<and>
   (key \<noteq> 27 \<or> \<not> auto_dismiss s \<longrightarrow> handle_keyboard key s = Some (False, s))"
  by (auto simp add: handle_keyboard_def split: option.splits)

theorem handle_keyboard_escape_witness:
  "handle_keyboard 27 (open_view False fresh_view) =
     map_option (Pair True) (dismiss False True (open_view False fresh_view)) \<and>
   map_option fst (handle_keyboard 27 (open_view False fresh_view)) = Some True \<and>
   handle_keyboard 13 (open_view False fresh_view) = Some (False, open_view False fresh_view) \<and>
   handle_keyboard 27 ((open_view False fresh_view)\<lparr>auto_dismiss := False\<rparr>) =
     Some (False, (open_view False fresh_view)\<lparr>auto_dismiss := False\<rparr>)"
  using handle_keyboard_escape [of 27 "open_view False fresh_view"]
    handle_keyboard_escape [of 13 "open_view False fresh_view"]
    handle_keyboard_escape [of 27 "(open_view False fresh_view)\<lparr>auto_dismiss := False\<rparr>"]
  by (simp add: method_defs fresh_view_def collaborator_defs Let_def)

subsection \<open>Centering\<close>

text \<open>
  C9. After \<open>open()\<close> the centre of the view is the centre of the window: a call that
  opens the view assigns it, and a call on a view that is already open and centred
  changes nothing. \<open>_align_center\<close>, the handler of the window's resize notification,
  assigns the window's current centre to the centre of the view when \<open>_is_open\<close> is
  true, and does nothing when \<open>_is_open\<close> is false.
\<close>

theorem centering:
  "((is_open s \<longrightarrow> center s = window_center (the_window s)) \<longrightarrow>
      center (open_view animation s) = window_center (the_window (open_view animation s))) \<and>
   (is_open s \<and> window s = Some Window \<longrightarrow>
      align_center s = Some (s\<lparr>center := window_center (the_window s)\<rparr>)) \<and>
   (\<not> is_open s \<longrightarrow> align_center s = Some s)"
  by (simp add: open_view_def align_center_def Let_def collaborator_defs split_def)

theorem centering_witness:
  "center (open_view True fresh_view) = (400, 300) \<and>
   window_center (the_window (open_view True fresh_view)) = (400, 300) \<and>
   align_center ((open_view True fresh_view)
       \<lparr>the_window := (the_window (open_view True fresh_view))\<lparr>window_center := (512, 384)\<rparr>\<rparr>) =
     Some ((open_view True fresh_view)
       \<lparr>the_window := (the_window (open_view True fresh_view))\<lparr>window_center := (512, 384)\<rparr>,
        center := (512, 384)\<rparr>) \<and>
   align_center (fresh_view\<lparr>the_window := (the_window fresh_view)\<lparr>window_center := (512, 384)\<rparr>\<rparr>) =
     Some (fresh_view\<lparr>the_window := (the_window fresh_view)\<lparr>window_center := (512, 384)\<rparr>\<rparr>)"
  using centering [of fresh_view True]
    centering [of "(open_view True fresh_view)
       \<lparr>the_window := (the_window (open_view True fresh_view))\<lparr>window_center := (512, 384)\<rparr>\<rparr>" True]
    centering [of "fresh_view\<lparr>the_window := (the_window fresh_view)\<lparr>window_center := (512, 384)\<rparr>\<rparr>" True]
  by (simp add: method_defs fresh_view_def collaborator_defs Let_def)

subsection \<open>dismiss() clears the animation first\<close>

text \<open>
  C10. A call of \<open>dismiss()\<close> on an open view first stops the animation named by
  \<open>_anim\<close> and clears \<open>_anim\<close>, and only then dispatches \<open>on_pre_dismiss\<close>: the calls
  it makes begin with those of \<open>_clear_anim\<close>, followed by the dispatch. So after a
  vetoed dismiss (a listener returns true, \<open>force\<close> false) the view is still open,
  \<open>_anim\<close> is \<open>None\<close>, and the animation \<open>_anim\<close> named before has been stopped: it
  is no longer running, and its completion does nothing.
\<close>

theorem dismiss_clears_animation_first:
  "is_open s \<Longrightarrow>
     (window s = Some Window \<longrightarrow>
        (\<exists>s' rest. dismiss force animation s = Some s' \<and>
           trace s' = trace s @ clear_anim_calls s @ Dispatch On_pre_dismiss # rest)) \<and>
     (fst (dispatch On_dismiss s) \<and> \<not> force \<longrightarrow>
        (\<exists>s'. dismiss force animation s = Some s' \<and> is_open s' \<and> anim s' = None \<and>
              (\<forall>h. anim s = Some h \<longrightarrow>
                 Anim_stop h \<in> set (clear_anim_calls s) \<and>
                 map_of (running s') h = None \<and> anim_complete h s' = Some s')))"
  by (simp add: dismiss_open Let_def real_remove_widget_def window_unbind_def
      window_remove_widget_def clear_anim_running clear_anim_calls_def anim_complete_def
      split: option.splits window_ref.splits)

theorem dismiss_clears_animation_first_witness:
  "is_open (open_view True vetoing_view) \<and>
   fst (dispatch On_dismiss (open_view True vetoing_view)) \<and>
   anim (open_view True vetoing_view) = Some 0 \<and>
   map_option anim (dismiss False True (open_view True vetoing_view)) = Some None \<and>
   map_option running (dismiss False True (open_view True vetoing_view)) = Some [] \<and>
   map_option is_open (dismiss False True (open_view True vetoing_view)) = Some True"
  using dismiss_clears_animation_first
    [where s = "open_view True vetoing_view" and animation = True and force = False]
  by (simp add: method_defs vetoing_view_def fresh_view_def collaborator_defs Let_def)

end
